theory Spec2Isabelle
  imports Main "HOL-Library.Word"
begin

section \<open>Strings of the component\<close>

text \<open>
  A JavaScript string is a sequence of 16-bit code units. Literals of the source that
  are plain ASCII are written with \<open>ascii\<close>, the Russian user messages as their
  code units.
\<close>

type_synonym jsstring = "16 word list"

definition ascii :: "string \<Rightarrow> jsstring" where
  "ascii s = map (\<lambda>c. of_nat (of_char c)) s"

text \<open>\<^verbatim>\<open>const API_BASE = 'http://localhost:8000'\<close>\<close>

definition API_BASE :: jsstring where
  "API_BASE = ascii ''http://localhost:8000''"

text \<open>The Russian message of the guard of \<open>analyzeCompetitors\<close> ("add at least one URL
  to analyse"), 37 code units.\<close>

definition validation_message :: jsstring where
  "validation_message =
     [0x414, 0x43E, 0x431, 0x430, 0x432, 0x44C, 0x442, 0x435, 0x20, 0x445, 0x43E, 0x442,
      0x44F, 0x20, 0x431, 0x44B, 0x20, 0x43E, 0x434, 0x438, 0x43D, 0x20, 0x55, 0x52, 0x4C,
      0x20, 0x434, 0x43B, 0x44F, 0x20, 0x430, 0x43D, 0x430, 0x43B, 0x438, 0x437, 0x430]"

text \<open>The Russian message thrown for an error response whose \<open>detail\<close> is falsy
  ("error during the analysis"), 18 code units.\<close>

definition detail_fallback :: jsstring where
  "detail_fallback =
     [0x41E, 0x448, 0x438, 0x431, 0x43A, 0x430, 0x20, 0x43F, 0x440, 0x438, 0x20, 0x430,
      0x43D, 0x430, 0x43B, 0x438, 0x437, 0x435]"

text \<open>The Russian message shown when the caught value is not an \<open>Error\<close>
  ("an error occurred"), 16 code units.\<close>

definition generic_message :: jsstring where
  "generic_message =
     [0x41F, 0x440, 0x43E, 0x438, 0x437, 0x43E, 0x448, 0x43B, 0x430, 0x20, 0x43E, 0x448,
      0x438, 0x431, 0x43A, 0x430]"

subsection \<open>\<open>String.prototype.trim\<close>\<close>

text \<open>
  \<open>trim\<close> removes, at both ends, the code units that ECMAScript calls WhiteSpace or
  LineTerminator: TAB, LF, VT, FF, CR, SP, NBSP, U+1680, U+2000..U+200A, U+2028,
  U+2029, U+202F, U+205F, U+3000 and U+FEFF. All of them are single code units.
\<close>

definition is_white_space :: "16 word \<Rightarrow> bool" where
  "is_white_space c \<longleftrightarrow>
     c \<in> {0x09, 0x0A, 0x0B, 0x0C, 0x0D, 0x20, 0xA0, 0x1680, 0x2028, 0x2029, 0x202F,
          0x205F, 0x3000, 0xFEFF}
     \<or> (0x2000 \<le> c \<and> c \<le> 0x200A)"

definition trim :: "jsstring \<Rightarrow> jsstring" where
  "trim s = rev (dropWhile is_white_space (rev (dropWhile is_white_space s)))"

section \<open>The state of the component\<close>

text \<open>The \<open>AnalyzeResponse\<close> interface.\<close>

record AnalyzeResponse =
  report_text :: jsstring
  pdf_path :: jsstring
  charts :: "jsstring list"

text \<open>The five \<open>useState\<close> cells; \<open>null\<close> is \<open>None\<close>.\<close>

record state =
  urls :: "jsstring list"
  urlInput :: jsstring
  isAnalyzing :: bool
  result :: "AnalyzeResponse option"
  error :: "jsstring option"

definition initial :: state where
  "initial = \<lparr>urls = [], urlInput = [], isAnalyzing = False, result = None, error = None\<rparr>"

section \<open>The URL list\<close>

text \<open>
  \<^verbatim>\<open>if (urlInput.trim() && !urls.includes(urlInput.trim())) {
    setUrls([...urls, urlInput.trim()]); setUrlInput('') }\<close>
  A string is truthy when it is not empty; \<open>includes\<close> compares strings by value.
\<close>

definition addUrl :: "state \<Rightarrow> state" where
  "addUrl s =
     (if trim (urlInput s) \<noteq> [] \<and> trim (urlInput s) \<notin> set (urls s)
      then s\<lparr>urls := urls s @ [trim (urlInput s)], urlInput := []\<rparr>
      else s)"

text \<open>\<^verbatim>\<open>if (e.key === 'Enter') { addUrl() }\<close>\<close>

definition handleKeyPress :: "jsstring \<Rightarrow> state \<Rightarrow> state" where
  "handleKeyPress key s = (if key = ascii ''Enter'' then addUrl s else s)"

text \<open>
  \<open>Array.prototype.filter\<close> with a callback that looks at the position only:
  \<open>xs.filter((_, i) => keep(i))\<close>. The first argument is the position of the head.
\<close>

fun filter_index :: "(nat \<Rightarrow> bool) \<Rightarrow> nat \<Rightarrow> 'a list \<Rightarrow> 'a list" where
  "filter_index keep i [] = []"
| "filter_index keep i (x # xs) =
     (if keep i then x # filter_index keep (Suc i) xs else filter_index keep (Suc i) xs)"

text \<open>
  \<^verbatim>\<open>setUrls(urls.filter((_, i) => i !== index))\<close>. The positions of an array are
  the non-negative integers; the argument is any integer.
\<close>

definition removeUrl :: "int \<Rightarrow> state \<Rightarrow> state" where
  "removeUrl index s = s\<lparr>urls := filter_index (\<lambda>i. int i \<noteq> index) 0 (urls s)\<rparr>"

text \<open>What every entry of the list satisfies.\<close>

definition urls_ok :: "jsstring list \<Rightarrow> bool" where
  "urls_ok us \<longleftrightarrow> list_all (\<lambda>u. u \<noteq> [] \<and> trim u = u) us \<and> distinct us"

section \<open>Values that cross the network boundary\<close>

text \<open>
  What a \<open>catch\<close> clause can receive: an instance of \<open>Error\<close>, of which the
  component reads the \<open>message\<close>, or any other value.
\<close>

datatype thrown = ErrorInstance jsstring | NotAnError

text \<open>
  The value that \<open>response.json()\<close> resolves to for an error response is untyped in
  the source, so it is any JSON value. Numbers are IEEE doubles; their type is left
  open as \<open>'n\<close>. An object lists its members in the order of the text.
\<close>

datatype 'n json =
    JNull
  | JBool bool
  | JNum 'n
  | JStr jsstring
  | JArr "'n json list"
  | JObj "(jsstring \<times> 'n json) list"

text \<open>
  What the JavaScript engine decides and the source does not: when a number is falsy,
  how a number prints, and the messages of the two \<open>TypeError\<close>s that the error
  path can raise.
\<close>

record 'n engine =
  number_is_zero :: "'n \<Rightarrow> bool"
  number_to_string :: "'n \<Rightarrow> jsstring"
  null_property_message :: jsstring
  to_primitive_message :: jsstring

text \<open>
  \<open>errorData.detail\<close>: reading a property of \<open>null\<close> throws; an object has the
  member that \<open>JSON.parse\<close> stored last under that name; every other value has no
  such property (\<open>undefined\<close>, here \<open>None\<close>).
\<close>

fun get_detail :: "'n engine \<Rightarrow> 'n json \<Rightarrow> thrown + 'n json option" where
  "get_detail e JNull = Inl (ErrorInstance (null_property_message e))"
| "get_detail e (JObj members) = Inr (map_of (rev members) (ascii ''detail''))"
| "get_detail e (JBool b) = Inr None"
| "get_detail e (JNum n) = Inr None"
| "get_detail e (JStr s) = Inr None"
| "get_detail e (JArr xs) = Inr None"

text \<open>The left operand of \<open>||\<close> is kept when it is truthy.\<close>

fun truthy :: "'n engine \<Rightarrow> 'n json \<Rightarrow> bool" where
  "truthy e JNull = False"
| "truthy e (JBool b) = b"
| "truthy e (JNum n) = (\<not> number_is_zero e n)"
| "truthy e (JStr s) = (s \<noteq> [])"
| "truthy e (JArr xs) = True"
| "truthy e (JObj members) = True"

text \<open>
  \<open>new Error(v)\<close> stores \<open>ToString(v)\<close> as the message. A string is itself; an array
  joins its elements with commas, \<open>null\<close> elements printing as nothing; an object
  prints through \<open>Object.prototype.toString\<close> unless a member named \<open>toString\<close>
  hides that method, in which case no conversion exists and a \<open>TypeError\<close> is thrown.
\<close>

fun to_string :: "'n engine \<Rightarrow> 'n json \<Rightarrow> thrown + jsstring"
  and join_elements :: "'n engine \<Rightarrow> 'n json list \<Rightarrow> thrown + jsstring" where
  "to_string e JNull = Inr (ascii ''null'')"
| "to_string e (JBool b) = Inr (if b then ascii ''true'' else ascii ''false'')"
| "to_string e (JNum n) = Inr (number_to_string e n)"
| "to_string e (JStr s) = Inr s"
| "to_string e (JArr xs) = join_elements e xs"
| "to_string e (JObj members) =
     (if ascii ''toString'' \<in> set (map fst members)
      then Inl (ErrorInstance (to_primitive_message e))
      else Inr (ascii ''[object Object]''))"
| "join_elements e [] = Inr []"
| "join_elements e (x # xs) =
     (case (if x = JNull then Inr [] else to_string e x) of
        Inl t \<Rightarrow> Inl t
      | Inr first \<Rightarrow>
          (if xs = [] then Inr first
           else (case join_elements e xs of
                   Inl t \<Rightarrow> Inl t
                 | Inr others \<Rightarrow> Inr (first @ ascii '','' @ others))))"

text \<open>
  How the awaited \<open>fetch\<close> and \<open>response.json()\<close> end: \<open>fetch\<close> rejects, or
  it resolves to a response with \<open>ok\<close> true, whose body is read as an
  \<open>AnalyzeResponse\<close>, or to one with \<open>ok\<close> false, whose body is read untyped. In both
  cases \<open>json()\<close> may reject instead (a body that is not JSON).
\<close>

datatype 'n fetch_outcome =
    FetchRejected thrown
  | OkResponse "thrown + AnalyzeResponse"
  | ErrorResponse "thrown + 'n json"

text \<open>The arguments of the one \<open>fetch\<close> call; the body is \<open>JSON.stringify({ urls })\<close>.\<close>

record request =
  request_url :: jsstring
  request_method :: jsstring
  request_content_type :: jsstring
  request_urls :: "jsstring list"

section \<open>\<open>analyzeCompetitors\<close>\<close>

text \<open>
  The function up to its first \<open>await\<close>: the guard, which sets the error and returns,
  or the three setters and the call of \<open>fetch\<close>.
\<close>

definition analyze_begin :: "state \<Rightarrow> state \<times> request option" where
  "analyze_begin s =
     (if length (urls s) = 0
      then (s\<lparr>error := Some validation_message\<rparr>, None)
      else (s\<lparr>isAnalyzing := True, error := None, result := None\<rparr>,
            Some \<lparr>request_url = API_BASE @ ascii ''/api/analyze'',
                  request_method = ascii ''POST'',
                  request_content_type = ascii ''application/json'',
                  request_urls = urls s\<rparr>))"

text \<open>
  The \<open>try\<close> block after the request was sent: \<open>Inr\<close> is the data handed to
  \<open>setResult\<close>, \<open>Inl\<close> the value that reaches \<open>catch\<close>.
\<close>

definition try_block :: "'n engine \<Rightarrow> 'n fetch_outcome \<Rightarrow> thrown + AnalyzeResponse" where
  "try_block e outcome =
     (case outcome of
        FetchRejected t \<Rightarrow> Inl t
      | ErrorResponse body \<Rightarrow>
          (case body of
             Inl t \<Rightarrow> Inl t
           | Inr errorData \<Rightarrow>
               (case get_detail e errorData of
                  Inl t \<Rightarrow> Inl t
                | Inr detail \<Rightarrow>
                    (case (case detail of
                             None \<Rightarrow> Inr detail_fallback
                           | Some d \<Rightarrow> if truthy e d then to_string e d else Inr detail_fallback) of
                       Inl t \<Rightarrow> Inl t
                     | Inr message \<Rightarrow> Inl (ErrorInstance message))))
      | OkResponse body \<Rightarrow>
          (case body of
             Inl t \<Rightarrow> Inl t
           | Inr data \<Rightarrow> Inr data))"

text \<open>
  The rest of the function, run when the request settles, on the state of that moment:
  \<open>setResult\<close> or, in \<open>catch\<close>, \<open>setError\<close>, and then \<open>finally\<close>.
\<close>

definition analyze_settle :: "'n engine \<Rightarrow> 'n fetch_outcome \<Rightarrow> state \<Rightarrow> state" where
  "analyze_settle e outcome s =
     (case try_block e outcome of
        Inr data \<Rightarrow> s\<lparr>result := Some data\<rparr>
      | Inl err \<Rightarrow>
          s\<lparr>error := Some (case err of ErrorInstance message \<Rightarrow> message
                                     | NotAnError \<Rightarrow> generic_message)\<rparr>)
     \<lparr>isAnalyzing := False\<rparr>"

text \<open>
  One whole call with nothing else happening in between. \<open>net\<close> is the network; the
  second component lists the requests that were sent.
\<close>

definition analyzeCompetitors ::
  "'n engine \<Rightarrow> (request \<Rightarrow> 'n fetch_outcome) \<Rightarrow> state \<Rightarrow> state \<times> request list" where
  "analyzeCompetitors e net s =
     (case analyze_begin s of
        (s', None) \<Rightarrow> (s', [])
      | (s', Some r) \<Rightarrow> (analyze_settle e (net r) s', [r]))"

text \<open>The state after a failed attempt started in \<open>s\<close>: the message in the error
  cell, no result, not analyzing.\<close>

definition failed_with :: "state \<Rightarrow> jsstring \<Rightarrow> state" where
  "failed_with s m = s\<lparr>isAnalyzing := False, error := Some m, result := None\<rparr>"

section \<open>What the component renders\<close>

text \<open>\<^verbatim>\<open>{error && (<div className="error-message">... <p>{error}</p>)}\<close>: the
  error block is rendered for a string that is neither \<open>null\<close> nor empty.\<close>

definition render_error :: "state \<Rightarrow> jsstring option" where
  "render_error s = (case error s of None \<Rightarrow> None | Some m \<Rightarrow> if m \<noteq> [] then Some m else None)"

text \<open>\<^verbatim>\<open>disabled={isAnalyzing || urls.length === 0}\<close> of the analyze button.\<close>

definition analyze_disabled :: "state \<Rightarrow> bool" where
  "analyze_disabled s \<longleftrightarrow> isAnalyzing s \<or> length (urls s) = 0"

text \<open>\<open>s.split(sep)\<close> for a separator of one code unit: never an empty array.\<close>

fun split_on :: "16 word \<Rightarrow> jsstring \<Rightarrow> jsstring list" where
  "split_on sep [] = [[]]"
| "split_on sep (c # cs) =
     (if c = sep then [] # split_on sep cs
      else (case split_on sep cs of
              [] \<Rightarrow> [[c]]
            | segment # segments \<Rightarrow> (c # segment) # segments))"

text \<open>\<open>Array.prototype.pop\<close>, as far as its value goes: \<open>undefined\<close> for an empty array.\<close>

definition pop :: "'a list \<Rightarrow> 'a option" where
  "pop xs = (if xs = [] then None else Some (last xs))"

text \<open>\<^verbatim>\<open>`${API_BASE}/charts/${chart.split('/').pop()}`\<close>; a template prints
  \<open>undefined\<close> by its name.\<close>

definition chart_src :: "jsstring \<Rightarrow> jsstring" where
  "chart_src chart =
     API_BASE @ ascii ''/charts/'' @
     (case pop (split_on 0x2F chart) of None \<Rightarrow> ascii ''undefined'' | Some segment \<Rightarrow> segment)"

text \<open>
  \<^verbatim>\<open>{result.charts && result.charts.length > 0 && ( ... result.charts.map(...))}\<close>:
  the \<open>src\<close> of every \<open>img\<close> of the charts section, in order; no section, no image.
\<close>

definition chart_images :: "AnalyzeResponse \<Rightarrow> jsstring list" where
  "chart_images r = (if length (charts r) > 0 then map chart_src (charts r) else [])"

text \<open>\<^verbatim>\<open>{result && ( ... )}\<close>: the results section, and the charts in it, exist
  for a result that is not \<open>null\<close>.\<close>

definition render_charts :: "state \<Rightarrow> jsstring list" where
  "render_charts s = (case result s of None \<Rightarrow> [] | Some r \<Rightarrow> chart_images r)"

section \<open>\<open>downloadPDF\<close>\<close>

text \<open>The characters that \<open>encodeURIComponent\<close> leaves alone: letters, digits and
  \<^verbatim>\<open>- _ . ! ~ * ' ( )\<close>.\<close>

definition uri_unescaped :: "16 word \<Rightarrow> bool" where
  "uri_unescaped c \<longleftrightarrow>
     (0x41 \<le> c \<and> c \<le> 0x5A) \<or> (0x61 \<le> c \<and> c \<le> 0x7A) \<or> (0x30 \<le> c \<and> c \<le> 0x39)
     \<or> c \<in> {0x2D, 0x5F, 0x2E, 0x21, 0x7E, 0x2A, 0x27, 0x28, 0x29}"

definition hex_digit :: "nat \<Rightarrow> 16 word" where
  "hex_digit d = (if d < 10 then of_nat (0x30 + d) else of_nat (0x41 + (d - 10)))"

text \<open>\<open>%XY\<close> for one octet.\<close>

definition percent_octet :: "nat \<Rightarrow> jsstring" where
  "percent_octet b = [0x25, hex_digit (b div 16), hex_digit (b mod 16)]"

text \<open>The UTF-8 octets of a code point.\<close>

definition utf8_octets :: "nat \<Rightarrow> nat list" where
  "utf8_octets cp =
     (if cp < 0x80 then [cp]
      else if cp < 0x800 then [0xC0 + cp div 0x40, 0x80 + cp mod 0x40]
      else if cp < 0x10000 then
        [0xE0 + cp div 0x1000, 0x80 + (cp div 0x40) mod 0x40, 0x80 + cp mod 0x40]
      else
        [0xF0 + cp div 0x40000, 0x80 + (cp div 0x1000) mod 0x40,
         0x80 + (cp div 0x40) mod 0x40, 0x80 + cp mod 0x40])"

definition percent_encode :: "nat \<Rightarrow> jsstring" where
  "percent_encode cp = concat (map percent_octet (utf8_octets cp))"

definition is_high_surrogate :: "16 word \<Rightarrow> bool" where
  "is_high_surrogate c \<longleftrightarrow> 0xD800 \<le> c \<and> c \<le> 0xDBFF"

definition is_low_surrogate :: "16 word \<Rightarrow> bool" where
  "is_low_surrogate c \<longleftrightarrow> 0xDC00 \<le> c \<and> c \<le> 0xDFFF"

text \<open>
  \<open>encodeURIComponent\<close>: a surrogate pair is one code point, and a surrogate without
  its partner makes the function throw a \<open>URIError\<close>, here \<open>None\<close>.
\<close>

fun encodeURIComponent :: "jsstring \<Rightarrow> jsstring option" where
  "encodeURIComponent [] = Some []"
| "encodeURIComponent (c # cs) =
     (if uri_unescaped c then map_option ((#) c) (encodeURIComponent cs)
      else if is_low_surrogate c then None
      else if is_high_surrogate c then
        (case cs of
           [] \<Rightarrow> None
         | d # ds \<Rightarrow>
             if is_low_surrogate d
             then map_option
                    ((@) (percent_encode
                           (0x10000 + (unat c - 0xD800) * 0x400 + (unat d - 0xDC00))))
                    (encodeURIComponent ds)
             else None)
      else map_option ((@) (percent_encode (unat c))) (encodeURIComponent cs))"

text \<open>Strings in which every surrogate is half of a pair, that is, well-formed
  UTF-16.\<close>

fun well_formed_utf16 :: "jsstring \<Rightarrow> bool" where
  "well_formed_utf16 [] = True"
| "well_formed_utf16 [c] = (\<not> is_high_surrogate c \<and> \<not> is_low_surrogate c)"
| "well_formed_utf16 (c # d # ds) =
     (if is_high_surrogate c then is_low_surrogate d \<and> well_formed_utf16 ds
      else \<not> is_low_surrogate c \<and> well_formed_utf16 (d # ds))"

text \<open>
  \<^verbatim>\<open>if (result?.pdf_path) { window.open(`${API_BASE}/api/download?path=${
  encodeURIComponent(result.pdf_path)}`, '_blank') }\<close>
  The value lists the calls of \<open>window.open\<close> as pairs of URL and target; it is
  \<open>None\<close> when the handler ends with the uncaught \<open>URIError\<close>.
\<close>

definition downloadPDF :: "state \<Rightarrow> (jsstring \<times> jsstring) list option" where
  "downloadPDF s =
     (case result s of
        None \<Rightarrow> Some []
      | Some r \<Rightarrow>
          if pdf_path r \<noteq> []
          then (case encodeURIComponent (pdf_path r) of
                  None \<Rightarrow> None
                | Some p \<Rightarrow> Some [(API_BASE @ ascii ''/api/download?path='' @ p, ascii ''_blank'')])
          else Some [])"

section \<open>The component as a machine driven by events\<close>

text \<open>
  The events that the rendered page can deliver to the state: typing into the field, a
  key pressed in it, the add button, a remove button, the analyze button, and the
  settling of the request in flight. A disabled analyze button delivers nothing, so a
  request is in flight exactly while \<open>isAnalyzing\<close> holds. The download button
  changes no cell and is left out.
\<close>

datatype 'n event =
    Typed jsstring
  | KeyPressed jsstring
  | AddClicked
  | RemoveClicked int
  | AnalyzeClicked
  | RequestSettled "'n fetch_outcome"

fun fire :: "'n engine \<Rightarrow> state \<Rightarrow> 'n event \<Rightarrow> state" where
  "fire e s (Typed v) = s\<lparr>urlInput := v\<rparr>"
| "fire e s (KeyPressed key) = handleKeyPress key s"
| "fire e s AddClicked = addUrl s"
| "fire e s (RemoveClicked i) = removeUrl i s"
| "fire e s AnalyzeClicked = (if analyze_disabled s then s else fst (analyze_begin s))"
| "fire e s (RequestSettled outcome) = (if isAnalyzing s then analyze_settle e outcome s else s)"


text \<open>
  The failure that the page reports: the error that it renders, unless that is the
  validation message, which belongs to the form and not to an attempt. An error cell
  that holds the empty string renders nothing and reports no failure.
\<close>

definition failure_message :: "state \<Rightarrow> jsstring option" where
  "failure_message s =
     (case render_error s of
        None \<Rightarrow> None
      | Some m \<Rightarrow> if m = validation_message then None else Some m)"

text \<open>
  The session states of the specification, read off the cells that carry them:
  \<open>Analyzing\<close> is the flag, \<open>Succeeded\<close> a result that is not \<open>null\<close>, \<open>Failed\<close>
  a reported failure, and \<open>Idle\<close> none of these, with or without a validation
  message on the page.
\<close>

datatype session = Idle | Analyzing | Succeeded AnalyzeResponse | Failed jsstring

definition active_sessions :: "state \<Rightarrow> session list" where
  "active_sessions s =
     (if isAnalyzing s then [Analyzing] else [])
     @ (case result s of None \<Rightarrow> [] | Some r \<Rightarrow> [Succeeded r])
     @ (case failure_message s of None \<Rightarrow> [] | Some m \<Rightarrow> [Failed m])
     @ (if \<not> isAnalyzing s \<and> result s = None \<and> failure_message s = None then [Idle] else [])"

section \<open>Inputs for the examples\<close>

definition ex_site_a :: jsstring where
  "ex_site_a = ascii ''https://a.example''"

definition ex_site_b :: jsstring where
  "ex_site_b = ascii ''https://b.example''"

text \<open>A form that holds one URL and a typed text.\<close>

definition ex_form :: "jsstring \<Rightarrow> state" where
  "ex_form typed = initial\<lparr>urls := [ex_site_a], urlInput := typed\<rparr>"

text \<open>A form that holds three URLs.\<close>

definition ex_list :: state where
  "ex_list = initial\<lparr>urls := [ex_site_a, ex_site_b, ascii ''https://c.example'']\<rparr>"

text \<open>An engine for the examples. Its only number is zero.\<close>

definition ex_engine :: "unit engine" where
  "ex_engine =
     \<lparr>number_is_zero = (\<lambda>n. True),
      number_to_string = (\<lambda>n. ascii ''0''),
      null_property_message = ascii ''errorData is null'',
      to_primitive_message = ascii ''Cannot convert object to primitive value''\<rparr>"

text \<open>The success response of the specification's example.\<close>

definition ex_report :: AnalyzeResponse where
  "ex_report = \<lparr>report_text = ascii ''X'', pdf_path = ascii ''/r/a.pdf'', charts = [ascii ''/c/1.png'']\<rparr>"


text \<open>The error body \<^verbatim>\<open>{"detail": "bad url"}\<close>.\<close>

definition ex_bad_url_body :: "unit json" where
  "ex_bad_url_body = JObj [(ascii ''detail'', JStr (ascii ''bad url''))]"

text \<open>The error body \<^verbatim>\<open>{"detail": ""}\<close>.\<close>

definition ex_empty_detail_body :: "unit json" where
  "ex_empty_detail_body = JObj [(ascii ''detail'', JStr [])]"

text \<open>The error body \<^verbatim>\<open>{"detail": []}\<close>.\<close>

definition ex_empty_array_body :: "unit json" where
  "ex_empty_array_body = JObj [(ascii ''detail'', JArr [])]"

text \<open>A path whose file name holds the first half of a surrogate pair and not the second.\<close>

definition ex_broken_path :: jsstring where
  "ex_broken_path = ascii ''/r/'' @ [0xD83D] @ ascii ''.pdf''"

section \<open>The URL list: proofs\<close>

lemma rev_dropWhile_takeWhile: "rev (dropWhile P (rev u)) @ rev (takeWhile P (rev u)) = u"
  by (metis rev_append rev_rev_ident takeWhile_dropWhile_id)

lemma dropWhile_not_hd: "t \<noteq> [] \<Longrightarrow> \<not> P (hd t) \<Longrightarrow> dropWhile P t = t"
  by (cases t) auto

lemma trim_split: "\<exists>pre suf. s = pre @ trim s @ suf \<and> list_all is_white_space pre \<and> list_all is_white_space suf"
proof -
  let ?u = "dropWhile is_white_space s"
  let ?v = "rev ?u"
  have a: "s = takeWhile is_white_space s @ ?u" by simp
  have c: "?u = trim s @ rev (takeWhile is_white_space ?v)"
    unfolding trim_def by (rule rev_dropWhile_takeWhile [symmetric])
  have "s = takeWhile is_white_space s @ trim s @ rev (takeWhile is_white_space ?v)"
    using a c by metis
  moreover have "list_all is_white_space (takeWhile is_white_space s)"
    by (simp add: list_all_iff) (meson set_takeWhileD)
  moreover have "list_all is_white_space (rev (takeWhile is_white_space ?v))"
    by (simp add: list_all_iff) (meson set_takeWhileD)
  ultimately show ?thesis by blast
qed

lemma trim_ends:
  assumes "trim s \<noteq> []"
  shows "\<not> is_white_space (hd (trim s)) \<and> \<not> is_white_space (last (trim s))"
proof -
  let ?u = "dropWhile is_white_space s"
  let ?d = "dropWhile is_white_space (rev ?u)"
  have d: "?d \<noteq> []" using assms by (simp add: trim_def)
  have "last (trim s) = hd ?d" using d by (simp add: trim_def last_rev)
  then have l: "\<not> is_white_space (last (trim s))" using d by (simp add: hd_dropWhile)
  have u: "?u = trim s @ rev (takeWhile is_white_space (rev ?u))"
    unfolding trim_def by (rule rev_dropWhile_takeWhile [symmetric])
  have "?u \<noteq> []"
  proof
    assume e: "?u = []"
    have "trim s = []" unfolding trim_def e by simp
    then show False using assms by simp
  qed
  then have "\<not> is_white_space (hd ?u)" by (rule hd_dropWhile)
  moreover have "hd ?u = hd (trim s)" using u assms by (metis hd_append2)
  ultimately show ?thesis using l by simp
qed

lemma trim_fixed:
  assumes "t \<noteq> []" "\<not> is_white_space (hd t)" "\<not> is_white_space (last t)"
  shows "trim t = t"
proof -
  have "dropWhile is_white_space t = t" using assms by (simp add: dropWhile_not_hd)
  moreover have "dropWhile is_white_space (rev t) = rev t"
    using assms by (simp add: dropWhile_not_hd hd_rev)
  ultimately show ?thesis by (simp add: trim_def)
qed

lemma trim_idem: "trim (trim s) = trim s"
proof (cases "trim s = []")
  case True
  have "trim [] = []" by (simp add: trim_def)
  then show ?thesis using True by simp
next
  case False then show ?thesis using trim_ends trim_fixed by blast
qed

lemma filter_index_all: "(\<And>j. i \<le> j \<Longrightarrow> j < i + length xs \<Longrightarrow> keep j) \<Longrightarrow> filter_index keep i xs = xs"
  by (induction xs arbitrary: i) auto

lemma filter_index_remove:
  "filter_index (\<lambda>j. j \<noteq> i + k) i xs = (if k < length xs then take k xs @ drop (Suc k) xs else xs)"
proof (induction xs arbitrary: i k)
  case Nil then show ?case by simp
next
  case (Cons x xs)
  show ?case
  proof (cases k)
    case 0
    then show ?thesis by (simp add: filter_index_all)
  next
    case (Suc k')
    have "filter_index (\<lambda>j. j \<noteq> Suc i + k') (Suc i) xs = (if k' < length xs then take k' xs @ drop (Suc k') xs else xs)"
      by (rule Cons.IH)
    then show ?thesis using Suc by simp
  qed
qed

lemma filter_index_below: "index < int i \<Longrightarrow> filter_index (\<lambda>j. int j \<noteq> index) i xs = xs"
  by (rule filter_index_all) auto

lemma removeUrl_urls:
  "urls (removeUrl index s) =
     (if 0 \<le> index \<and> index < int (length (urls s))
      then take (nat index) (urls s) @ drop (Suc (nat index)) (urls s) else urls s)"
proof (cases "0 \<le> index")
  case True
  then have "(\<lambda>i. int i \<noteq> index) = (\<lambda>j. j \<noteq> 0 + nat index)" by auto
  then show ?thesis using True filter_index_remove [of 0 "nat index" "urls s"]
    by (auto simp: removeUrl_def)
next
  case False
  then have "filter_index (\<lambda>j. int j \<noteq> index) 0 (urls s) = urls s"
    by (intro filter_index_below) simp
  then show ?thesis using False by (simp add: removeUrl_def)
qed

text \<open>
  Claim C6. \<open>addUrl\<close> works on the trimmed input: the input is the trimmed string
  between two runs of white space, and the trimmed string neither starts nor ends with
  white space. If the trimmed string is empty or already in the list, the state is
  unchanged (list, field and length included); otherwise the trimmed string becomes the
  last entry, the earlier entries stay as they were, and the field is cleared.
\<close>

theorem addUrl_spec:
  "(\<exists>before after.
       urlInput s = before @ trim (urlInput s) @ after
       \<and> list_all is_white_space before \<and> list_all is_white_space after)
   \<and> (trim (urlInput s) \<noteq> [] \<longrightarrow>
         \<not> is_white_space (hd (trim (urlInput s))) \<and> \<not> is_white_space (last (trim (urlInput s))))
   \<and> (trim (urlInput s) = [] \<or> trim (urlInput s) \<in> set (urls s) \<longrightarrow>
         addUrl s = s \<and> length (urls (addUrl s)) = length (urls s))
   \<and> (trim (urlInput s) \<noteq> [] \<and> trim (urlInput s) \<notin> set (urls s) \<longrightarrow>
         addUrl s = s\<lparr>urls := urls s @ [trim (urlInput s)], urlInput := []\<rparr>
         \<and> last (urls (addUrl s)) = trim (urlInput s)
         \<and> butlast (urls (addUrl s)) = urls s
         \<and> urlInput (addUrl s) = [])"
proof (intro conjI impI)
  show "\<exists>before after. urlInput s = before @ trim (urlInput s) @ after
       \<and> list_all is_white_space before \<and> list_all is_white_space after"
    by (rule trim_split)
next
  assume "trim (urlInput s) \<noteq> []"
  then show "\<not> is_white_space (hd (trim (urlInput s)))" "\<not> is_white_space (last (trim (urlInput s)))"
    using trim_ends by blast+
next
  assume "trim (urlInput s) = [] \<or> trim (urlInput s) \<in> set (urls s)"
  then show a: "addUrl s = s" by (auto simp: addUrl_def)
  then show "length (urls (addUrl s)) = length (urls s)" by simp
next
  assume h: "trim (urlInput s) \<noteq> [] \<and> trim (urlInput s) \<notin> set (urls s)"
  then show a: "addUrl s = s\<lparr>urls := urls s @ [trim (urlInput s)], urlInput := []\<rparr>"
    by (simp add: addUrl_def)
  show "last (urls (addUrl s)) = trim (urlInput s)" by (simp add: a)
  show "butlast (urls (addUrl s)) = urls s" by (simp add: a)
  show "urlInput (addUrl s) = []" by (simp add: a)
qed

lemma trim_ex_known: "trim (ascii ''  https://a.example  '') = ex_site_a"
  by code_simp

lemma trim_ex_fresh: "trim (ascii '' https://b.example'') = ex_site_b"
  by code_simp

lemma trim_ex_blank: "trim [0x20, 0x09, 0xA0] = []"
  by code_simp

lemma ex_sites_differ: "ex_site_b \<noteq> [] \<and> ex_site_b \<noteq> ex_site_a"
  by code_simp

text \<open>A known URL and a blank text change nothing; a new URL is appended, trimmed.\<close>

theorem addUrl_spec_witness:
  "addUrl (ex_form (ascii ''  https://a.example  '')) = ex_form (ascii ''  https://a.example  '')
   \<and> addUrl (ex_form [0x20, 0x09, 0xA0]) = ex_form [0x20, 0x09, 0xA0]
   \<and> urls (addUrl (ex_form (ascii '' https://b.example''))) = [ex_site_a, ex_site_b]
   \<and> urlInput (addUrl (ex_form (ascii '' https://b.example''))) = []"
proof -
  have dup: "trim (urlInput (ex_form (ascii ''  https://a.example  ''))) \<in> set (urls (ex_form (ascii ''  https://a.example  '')))"
    by (simp add: ex_form_def trim_ex_known)
  have blank: "trim (urlInput (ex_form [0x20, 0x09, 0xA0])) = []"
    by (simp add: ex_form_def trim_ex_blank)
  have fresh: "trim (urlInput (ex_form (ascii '' https://b.example''))) \<noteq> []
        \<and> trim (urlInput (ex_form (ascii '' https://b.example''))) \<notin> set (urls (ex_form (ascii '' https://b.example'')))"
    using ex_sites_differ by (simp add: ex_form_def trim_ex_fresh)
  have "addUrl (ex_form (ascii ''  https://a.example  '')) = ex_form (ascii ''  https://a.example  '')"
    using addUrl_spec [of "ex_form (ascii ''  https://a.example  '')"] dup by blast
  moreover have "addUrl (ex_form [0x20, 0x09, 0xA0]) = ex_form [0x20, 0x09, 0xA0]"
    using addUrl_spec [of "ex_form [0x20, 0x09, 0xA0]"] blank by blast
  moreover have "addUrl (ex_form (ascii '' https://b.example''))
      = (ex_form (ascii '' https://b.example''))\<lparr>urls := urls (ex_form (ascii '' https://b.example'')) @ [trim (urlInput (ex_form (ascii '' https://b.example'')))], urlInput := []\<rparr>"
    using addUrl_spec [of "ex_form (ascii '' https://b.example'')"] fresh by blast
  ultimately show ?thesis by (simp add: ex_form_def trim_ex_fresh)
qed


text \<open>
  Claim C7. For an index inside the list, \<open>removeUrl\<close> leaves the entries before
  the index followed by the entries after it, in their order, so the list is one entry
  shorter; for any other index the state is unchanged. No other cell is touched.
\<close>

theorem removeUrl_spec:
  "(0 \<le> index \<and> index < int (length (urls s)) \<longrightarrow>
      urls (removeUrl index s) = take (nat index) (urls s) @ drop (Suc (nat index)) (urls s)
      \<and> Suc (length (urls (removeUrl index s))) = length (urls s))
   \<and> (\<not> (0 \<le> index \<and> index < int (length (urls s))) \<longrightarrow> removeUrl index s = s)
   \<and> removeUrl index s = s\<lparr>urls := urls (removeUrl index s)\<rparr>"
proof (intro conjI impI)
  assume v: "0 \<le> index \<and> index < int (length (urls s))"
  then show a: "urls (removeUrl index s) = take (nat index) (urls s) @ drop (Suc (nat index)) (urls s)"
    by (simp add: removeUrl_urls)
  have "nat index < length (urls s)" using v by linarith
  then show "Suc (length (urls (removeUrl index s))) = length (urls s)"
    unfolding a by simp
next
  assume "\<not> (0 \<le> index \<and> index < int (length (urls s)))"
  then have "urls (removeUrl index s) = urls s" by (auto simp: removeUrl_urls)
  then show "removeUrl index s = s" by (simp add: removeUrl_def)
next
  show "removeUrl index s = s\<lparr>urls := urls (removeUrl index s)\<rparr>" by (simp add: removeUrl_def)
qed

text \<open>Removing the middle of three entries; indices 3 and -1 remove nothing.\<close>

theorem removeUrl_spec_witness:
  "urls (removeUrl 1 ex_list) = [ex_site_a, ascii ''https://c.example'']
   \<and> removeUrl 3 ex_list = ex_list \<and> removeUrl (- 1) ex_list = ex_list"
proof -
  have len: "length (urls ex_list) = 3" by (simp add: ex_list_def)
  have "urls (removeUrl 1 ex_list) = take (nat 1) (urls ex_list) @ drop (Suc (nat 1)) (urls ex_list)"
    using removeUrl_spec [of 1 ex_list] len by simp
  moreover have "removeUrl 3 ex_list = ex_list"
    using removeUrl_spec [of 3 ex_list] len by simp
  moreover have "removeUrl (- 1) ex_list = ex_list"
    using removeUrl_spec [of "- 1" ex_list] len by simp
  ultimately show ?thesis by (simp add: ex_list_def)
qed

lemma urls_ok_append:
  "urls_ok us \<Longrightarrow> u \<noteq> [] \<Longrightarrow> trim u = u \<Longrightarrow> u \<notin> set us \<Longrightarrow> urls_ok (us @ [u])"
  by (simp add: urls_ok_def)

lemma urls_ok_remove: "urls_ok us \<Longrightarrow> urls_ok (take k us @ drop (Suc k) us)"
proof -
  assume a: "urls_ok us"
  have "set (take k us) \<inter> set (drop (Suc k) us) = {}"
    using a by (simp add: urls_ok_def set_take_disj_set_drop_if_distinct)
  moreover have "set (take k us) \<subseteq> set us" "set (drop (Suc k) us) \<subseteq> set us"
    by (simp_all add: set_take_subset set_drop_subset)
  ultimately show ?thesis using a by (auto simp: urls_ok_def list_all_iff)
qed

text \<open>
  Claim C10. Every entry of the list is a non-empty string equal to its own trimmed
  form and no entry occurs twice: this holds for the initial list and is preserved by
  \<open>addUrl\<close> and by \<open>removeUrl\<close> at any index.
\<close>

theorem urls_invariant:
  "urls_ok (urls initial)
   \<and> (urls_ok (urls s) \<longrightarrow> urls_ok (urls (addUrl s)) \<and> urls_ok (urls (removeUrl index s)))"
proof (intro conjI impI)
  show "urls_ok (urls initial)" by (simp add: initial_def urls_ok_def)
next
  assume a: "urls_ok (urls s)"
  show "urls_ok (urls (addUrl s))"
  proof (cases "trim (urlInput s) \<noteq> [] \<and> trim (urlInput s) \<notin> set (urls s)")
    case True
    then show ?thesis using a by (simp add: addUrl_def urls_ok_append trim_idem)
  next
    case False
    then have "addUrl s = s" by (auto simp: addUrl_def)
    then show ?thesis using a by simp
  qed
  show "urls_ok (urls (removeUrl index s))"
    using a by (simp add: removeUrl_urls urls_ok_remove)
qed

lemma ex_list_ok: "urls_ok (urls ex_list)"
  by code_simp

text \<open>The invariant on a list of three, after adding a fourth and after removing one.\<close>

theorem urls_invariant_witness:
  "urls_ok (urls ex_list)
   \<and> urls_ok (urls (addUrl (ex_list\<lparr>urlInput := ascii '' https://d.example ''\<rparr>)))
   \<and> urls_ok (urls (removeUrl 1 ex_list))"
proof -
  have "urls_ok (urls (ex_list\<lparr>urlInput := ascii '' https://d.example ''\<rparr>))"
    using ex_list_ok by simp
  then have "urls_ok (urls (addUrl (ex_list\<lparr>urlInput := ascii '' https://d.example ''\<rparr>)))"
    using urls_invariant [of "ex_list\<lparr>urlInput := ascii '' https://d.example ''\<rparr>" 0] by blast
  moreover have "urls_ok (urls (removeUrl 1 ex_list))"
    using urls_invariant [of ex_list 1] ex_list_ok by blast
  ultimately show ?thesis using ex_list_ok by simp
qed

section \<open>The analysis request: proofs\<close>

lemma analyze_begin_nonempty:
  "urls s \<noteq> [] \<Longrightarrow>
     analyze_begin s =
       (s\<lparr>isAnalyzing := True, error := None, result := None\<rparr>,
        Some \<lparr>request_url = API_BASE @ ascii ''/api/analyze'', request_method = ascii ''POST'',
              request_content_type = ascii ''application/json'', request_urls = urls s\<rparr>)"
  by (simp add: analyze_begin_def)

lemma analyze_settle_flag: "isAnalyzing (analyze_settle e outcome s) = False"
  by (simp add: analyze_settle_def split: sum.split)

text \<open>
  Claim C1. After a call of \<open>analyzeCompetitors\<close> with a non-empty list,
  \<open>isAnalyzing\<close> is false, whatever the network answers: a success, an error status
  or a thrown value. The same holds when other events changed the state while the
  request was in flight: the settling step ends with the flag false on any state.
\<close>

theorem analyzing_flag_reset:
  "(urls s \<noteq> [] \<longrightarrow> \<not> isAnalyzing (fst (analyzeCompetitors e net s)))
   \<and> \<not> isAnalyzing (analyze_settle e outcome s')
   \<and> \<not> isAnalyzing (fire e s' (RequestSettled outcome))"
  by (simp add: analyzeCompetitors_def analyze_begin_nonempty analyze_settle_flag)

lemma ex_list_urls: "urls ex_list \<noteq> []"
  by (simp add: ex_list_def)

text \<open>C1 on three answers: a report, a 4xx body without \<open>detail\<close>, a rejected
  \<open>fetch\<close>.\<close>

theorem analyzing_flag_reset_witness:
  "\<not> isAnalyzing (fst (analyzeCompetitors ex_engine (\<lambda>r. OkResponse (Inr ex_report)) ex_list))
   \<and> \<not> isAnalyzing (fst (analyzeCompetitors ex_engine (\<lambda>r. ErrorResponse (Inr (JObj []))) ex_list))
   \<and> \<not> isAnalyzing (fst (analyzeCompetitors ex_engine (\<lambda>r. FetchRejected NotAnError) ex_list))
   \<and> urls ex_list \<noteq> []"
  using analyzing_flag_reset [of ex_list ex_engine "\<lambda>r. OkResponse (Inr ex_report)"]
    analyzing_flag_reset [of ex_list ex_engine "\<lambda>r. ErrorResponse (Inr (JObj []))"]
    analyzing_flag_reset [of ex_list ex_engine "\<lambda>r. FetchRejected NotAnError"]
    ex_list_urls
  by blast

lemma validation_message_nonempty: "validation_message \<noteq> []"
  by (simp add: validation_message_def)

lemma detail_fallback_nonempty: "detail_fallback \<noteq> []"
  by (simp add: detail_fallback_def)

lemma generic_message_nonempty: "generic_message \<noteq> []"
  by (simp add: generic_message_def)

text \<open>
  Claim C3. A call of \<open>analyzeCompetitors\<close> with an empty list returns at the guard:
  \<open>fetch\<close> is not called (no request is listed, whatever the network would answer),
  the error cell holds the validation message, which is not empty, and the page
  renders it.
\<close>

theorem empty_list_guard:
  "urls s = [] \<longrightarrow>
     analyze_begin s = (s\<lparr>error := Some validation_message\<rparr>, None)
     \<and> analyzeCompetitors e net s = (s\<lparr>error := Some validation_message\<rparr>, [])
     \<and> render_error (fst (analyzeCompetitors e net s)) = Some validation_message
     \<and> validation_message \<noteq> []"
  by (simp add: analyzeCompetitors_def analyze_begin_def render_error_def validation_message_nonempty)

text \<open>C3 on the initial state.\<close>

theorem empty_list_guard_witness:
  "urls initial = []
   \<and> analyzeCompetitors ex_engine (\<lambda>r. OkResponse (Inr ex_report)) initial
       = (initial\<lparr>error := Some validation_message\<rparr>, [])
   \<and> render_error (fst (analyzeCompetitors ex_engine (\<lambda>r. OkResponse (Inr ex_report)) initial))
       = Some validation_message"
proof -
  have "urls initial = []" by (simp add: initial_def)
  then show ?thesis
    using empty_list_guard [of initial ex_engine "\<lambda>r. OkResponse (Inr ex_report)"] by blast
qed

lemma analyzeCompetitors_nonempty:
  "urls s \<noteq> [] \<Longrightarrow>
     fst (analyzeCompetitors e (\<lambda>r. outcome) s)
       = analyze_settle e outcome (s\<lparr>isAnalyzing := True, error := None, result := None\<rparr>)"
  by (simp add: analyzeCompetitors_def analyze_begin_nonempty)

lemma settle_thrown:
  "try_block e outcome = Inl t \<Longrightarrow>
     analyze_settle e outcome s
       = s\<lparr>error := Some (case t of ErrorInstance m \<Rightarrow> m | NotAnError \<Rightarrow> generic_message),
           isAnalyzing := False\<rparr>"
  by (simp add: analyze_settle_def)

lemma try_block_detail_string:
  "get_detail e body = Inr (Some (JStr d)) \<Longrightarrow> d \<noteq> [] \<Longrightarrow>
     try_block e (ErrorResponse (Inr body)) = Inl (ErrorInstance d)"
  by (simp add: try_block_def)

lemma try_block_detail_falsy:
  "get_detail e body = Inr None \<or> (\<exists>v. get_detail e body = Inr (Some v) \<and> \<not> truthy e v) \<Longrightarrow>
     try_block e (ErrorResponse (Inr body)) = Inl (ErrorInstance detail_fallback)"
  by (auto simp: try_block_def)

text \<open>
  Claim C4, amended. For an error response whose body was parsed, after a call with a
  non-empty list: when \<open>detail\<close> is a non-empty string, the attempt has failed with
  exactly that string, and the page renders it; when the body has no \<open>detail\<close>, or
  a falsy one (the empty string, \<open>null\<close>, \<open>false\<close>, zero), the attempt has failed
  with the fixed fallback message, which is not empty, and the page renders that.
\<close>

theorem error_response_message:
  "urls s \<noteq> [] \<longrightarrow>
     (\<forall>d. get_detail e body = Inr (Some (JStr d)) \<and> d \<noteq> [] \<longrightarrow>
          fst (analyzeCompetitors e (\<lambda>r. ErrorResponse (Inr body)) s) = failed_with s d
          \<and> render_error (failed_with s d) = Some d)
     \<and> (get_detail e body = Inr None
         \<or> (\<exists>v. get_detail e body = Inr (Some v) \<and> \<not> truthy e v) \<longrightarrow>
          fst (analyzeCompetitors e (\<lambda>r. ErrorResponse (Inr body)) s) = failed_with s detail_fallback
          \<and> render_error (failed_with s detail_fallback) = Some detail_fallback
          \<and> detail_fallback \<noteq> [])"
proof (intro impI conjI allI)
  fix d
  assume u: "urls s \<noteq> []" and d: "get_detail e body = Inr (Some (JStr d)) \<and> d \<noteq> []"
  then have "try_block e (ErrorResponse (Inr body)) = Inl (ErrorInstance d)"
    by (simp add: try_block_detail_string)
  then show "fst (analyzeCompetitors e (\<lambda>r. ErrorResponse (Inr body)) s) = failed_with s d"
    using u by (simp add: analyzeCompetitors_nonempty settle_thrown failed_with_def)
  show "render_error (failed_with s d) = Some d"
    using d by (simp add: render_error_def failed_with_def)
next
  assume u: "urls s \<noteq> []"
    and d: "get_detail e body = Inr None \<or> (\<exists>v. get_detail e body = Inr (Some v) \<and> \<not> truthy e v)"
  then have "try_block e (ErrorResponse (Inr body)) = Inl (ErrorInstance detail_fallback)"
    by (simp add: try_block_detail_falsy)
  then show "fst (analyzeCompetitors e (\<lambda>r. ErrorResponse (Inr body)) s) = failed_with s detail_fallback"
    using u by (simp add: analyzeCompetitors_nonempty settle_thrown failed_with_def)
  show "render_error (failed_with s detail_fallback) = Some detail_fallback"
    by (simp add: render_error_def failed_with_def detail_fallback_nonempty)
  show "detail_fallback \<noteq> []" by (rule detail_fallback_nonempty)
qed

lemma ex_bad_url_detail: "get_detail ex_engine ex_bad_url_body = Inr (Some (JStr (ascii ''bad url'')))"
  by (simp add: ex_bad_url_body_def)

lemma ex_no_detail: "get_detail ex_engine (JObj []) = Inr None"
  by simp

lemma ex_empty_detail: "get_detail ex_engine ex_empty_detail_body = Inr (Some (JStr []))"
  by (simp add: ex_empty_detail_body_def)

lemma ascii_bad_url: "ascii ''bad url'' \<noteq> []"
  by (simp add: ascii_def)

text \<open>C4 on the bodies \<^verbatim>\<open>{"detail": "bad url"}\<close> and \<^verbatim>\<open>{}\<close>.\<close>

theorem error_response_message_witness:
  "render_error (fst (analyzeCompetitors ex_engine (\<lambda>r. ErrorResponse (Inr ex_bad_url_body)) ex_list))
     = Some (ascii ''bad url'')
   \<and> render_error (fst (analyzeCompetitors ex_engine (\<lambda>r. ErrorResponse (Inr (JObj []))) ex_list))
     = Some detail_fallback
   \<and> urls ex_list \<noteq> []"
proof -
  note t1 = error_response_message [of ex_list ex_engine ex_bad_url_body]
  note t2 = error_response_message [of ex_list ex_engine "JObj []"]
  have "fst (analyzeCompetitors ex_engine (\<lambda>r. ErrorResponse (Inr ex_bad_url_body)) ex_list)
          = failed_with ex_list (ascii ''bad url'')
        \<and> render_error (failed_with ex_list (ascii ''bad url'')) = Some (ascii ''bad url'')"
    using t1 ex_list_urls ex_bad_url_detail ascii_bad_url by blast
  moreover have "fst (analyzeCompetitors ex_engine (\<lambda>r. ErrorResponse (Inr (JObj []))) ex_list)
          = failed_with ex_list detail_fallback
        \<and> render_error (failed_with ex_list detail_fallback) = Some detail_fallback"
    using t2 ex_list_urls ex_no_detail by blast
  ultimately show ?thesis using ex_list_urls by simp
qed

lemma ex_engine_null_message: "null_property_message ex_engine = ascii ''errorData is null''"
  by (simp add: ex_engine_def)

text \<open>
  Claim C4 as stated fails. The body \<^verbatim>\<open>{"detail": ""}\<close> has the field, yet
  the page shows the fallback and not the field's value. The body \<^verbatim>\<open>null\<close>
  and a body that is not JSON have no \<open>detail\<close>, yet the page shows the message of
  the exception that reading them raised, not the fallback.
\<close>

theorem detail_claim_counterexample:
  "get_detail ex_engine ex_empty_detail_body = Inr (Some (JStr []))
   \<and> render_error (fst (analyzeCompetitors ex_engine (\<lambda>r. ErrorResponse (Inr ex_empty_detail_body)) ex_list))
       = Some detail_fallback
   \<and> detail_fallback \<noteq> []
   \<and> render_error (fst (analyzeCompetitors ex_engine (\<lambda>r. ErrorResponse (Inr JNull)) ex_list))
       = Some (ascii ''errorData is null'')
   \<and> render_error (fst (analyzeCompetitors ex_engine
         (\<lambda>r. ErrorResponse (Inl (ErrorInstance (ascii ''Unexpected end of JSON input'')))) ex_list))
       = Some (ascii ''Unexpected end of JSON input'')
   \<and> ascii ''errorData is null'' \<noteq> detail_fallback
   \<and> ascii ''Unexpected end of JSON input'' \<noteq> detail_fallback"
proof -
  have a: "try_block ex_engine (ErrorResponse (Inr ex_empty_detail_body)) = Inl (ErrorInstance detail_fallback)"
    by (simp add: try_block_def ex_empty_detail_body_def)
  have b: "try_block ex_engine (ErrorResponse (Inr JNull)) = Inl (ErrorInstance (ascii ''errorData is null''))"
    by (simp add: try_block_def ex_engine_null_message)
  have c: "try_block ex_engine (ErrorResponse (Inl (ErrorInstance (ascii ''Unexpected end of JSON input''))))
             = Inl (ErrorInstance (ascii ''Unexpected end of JSON input''))"
    by (simp add: try_block_def)
  have n: "ascii ''errorData is null'' \<noteq> []" "ascii ''Unexpected end of JSON input'' \<noteq> []"
    by (simp_all add: ascii_def)
  have d: "ascii ''errorData is null'' \<noteq> detail_fallback"
    "ascii ''Unexpected end of JSON input'' \<noteq> detail_fallback"
    by (simp_all add: ascii_def detail_fallback_def)
  show ?thesis
    using a b c n d ex_list_urls
    by (simp add: analyzeCompetitors_nonempty settle_thrown render_error_def ex_empty_detail
        detail_fallback_nonempty)
qed

lemma generic_message_not_validation: "generic_message \<noteq> validation_message"
  by (simp add: generic_message_def validation_message_def)

lemma failure_message_failed_with:
  "message \<noteq> [] \<Longrightarrow> message \<noteq> validation_message \<Longrightarrow>
     failure_message (failed_with s message) = Some message"
  by (simp add: failure_message_def render_error_def failed_with_def)

text \<open>
  Claim C5, amended. A value thrown by \<open>fetch\<close> or by \<open>json()\<close> reaches
  \<open>catch\<close>, and whenever a value reaches \<open>catch\<close> in a call with a non-empty list,
  the call ends with the flag false, no result, and the error cell holding the message
  of an \<open>Error\<close> instance, or the generic message for a thrown value that is no
  \<open>Error\<close>. A message that is not empty is what the page displays, and \<open>Failed\<close>
  with that message is then the one active session state, provided the message is not
  the text of the validation message. The generic message is not empty and is not that
  text.
\<close>

theorem exception_becomes_failure:
  "try_block e (FetchRejected t) = Inl t
   \<and> try_block e (OkResponse (Inl t)) = Inl t
   \<and> try_block e (ErrorResponse (Inl t)) = Inl t
   \<and> (urls s \<noteq> [] \<and> try_block e outcome = Inl t \<longrightarrow>
        fst (analyzeCompetitors e (\<lambda>r. outcome) s)
          = failed_with s (case t of ErrorInstance m \<Rightarrow> m | NotAnError \<Rightarrow> generic_message))
   \<and> error (failed_with s message) = Some message
   \<and> (message \<noteq> [] \<longrightarrow> render_error (failed_with s message) = Some message)
   \<and> (message \<noteq> [] \<and> message \<noteq> validation_message \<longrightarrow>
        active_sessions (failed_with s message) = [Failed message])
   \<and> generic_message \<noteq> []
   \<and> generic_message \<noteq> validation_message"
proof (intro conjI impI)
  show "try_block e (FetchRejected t) = Inl t" by (simp add: try_block_def)
  show "try_block e (OkResponse (Inl t)) = Inl t" by (simp add: try_block_def)
  show "try_block e (ErrorResponse (Inl t)) = Inl t" by (simp add: try_block_def)
  show "error (failed_with s message) = Some message" by (simp add: failed_with_def)
  show "generic_message \<noteq> []" by (rule generic_message_nonempty)
  show "generic_message \<noteq> validation_message" by (rule generic_message_not_validation)
next
  assume "urls s \<noteq> [] \<and> try_block e outcome = Inl t"
  then show "fst (analyzeCompetitors e (\<lambda>r. outcome) s)
          = failed_with s (case t of ErrorInstance m \<Rightarrow> m | NotAnError \<Rightarrow> generic_message)"
    by (simp add: analyzeCompetitors_nonempty settle_thrown failed_with_def)
next
  assume "message \<noteq> []"
  then show "render_error (failed_with s message) = Some message"
    by (simp add: render_error_def failed_with_def)
next
  assume "message \<noteq> [] \<and> message \<noteq> validation_message"
  then have "failure_message (failed_with s message) = Some message"
    by (simp add: failure_message_failed_with)
  then show "active_sessions (failed_with s message) = [Failed message]"
    by (simp add: active_sessions_def) (simp add: failed_with_def)
qed

lemma ex_fetch_message: "ascii ''Failed to fetch'' \<noteq> [] \<and> ascii ''Failed to fetch'' \<noteq> validation_message"
  by (simp add: ascii_def validation_message_def)

text \<open>C5 on a rejected \<open>fetch\<close> and on a \<open>json()\<close> that throws a value that is
  no \<open>Error\<close>.\<close>

theorem exception_becomes_failure_witness:
  "fst (analyzeCompetitors ex_engine (\<lambda>r. FetchRejected (ErrorInstance (ascii ''Failed to fetch''))) ex_list)
     = failed_with ex_list (ascii ''Failed to fetch'')
   \<and> render_error (failed_with ex_list (ascii ''Failed to fetch'')) = Some (ascii ''Failed to fetch'')
   \<and> active_sessions (failed_with ex_list (ascii ''Failed to fetch'')) = [Failed (ascii ''Failed to fetch'')]
   \<and> fst (analyzeCompetitors ex_engine (\<lambda>r. OkResponse (Inl NotAnError)) ex_list)
     = failed_with ex_list generic_message
   \<and> render_error (failed_with ex_list generic_message) = Some generic_message
   \<and> active_sessions (failed_with ex_list generic_message) = [Failed generic_message]
   \<and> urls ex_list \<noteq> []"
proof -
  note t1 = exception_becomes_failure
    [where e = ex_engine and t = "ErrorInstance (ascii ''Failed to fetch'')" and s = ex_list
       and outcome = "FetchRejected (ErrorInstance (ascii ''Failed to fetch''))"
       and message = "ascii ''Failed to fetch''"]
  note t2 = exception_becomes_failure
    [where e = ex_engine and t = NotAnError and s = ex_list
       and outcome = "OkResponse (Inl NotAnError)" and message = generic_message]
  have "fst (analyzeCompetitors ex_engine (\<lambda>r. FetchRejected (ErrorInstance (ascii ''Failed to fetch''))) ex_list)
     = failed_with ex_list (case ErrorInstance (ascii ''Failed to fetch'') of ErrorInstance m \<Rightarrow> m | NotAnError \<Rightarrow> generic_message)"
    using t1 ex_list_urls by blast
  moreover have "render_error (failed_with ex_list (ascii ''Failed to fetch'')) = Some (ascii ''Failed to fetch'')
      \<and> active_sessions (failed_with ex_list (ascii ''Failed to fetch'')) = [Failed (ascii ''Failed to fetch'')]"
    using t1 ex_fetch_message by blast
  moreover have "fst (analyzeCompetitors ex_engine (\<lambda>r. OkResponse (Inl NotAnError)) ex_list)
     = failed_with ex_list (case NotAnError of ErrorInstance m \<Rightarrow> m | NotAnError \<Rightarrow> generic_message)"
    using t2 ex_list_urls by blast
  moreover have "render_error (failed_with ex_list generic_message) = Some generic_message
      \<and> active_sessions (failed_with ex_list generic_message) = [Failed generic_message]"
    using t2 by blast
  ultimately show ?thesis using ex_list_urls by simp
qed

text \<open>
  Claim C5 as stated fails. For the error body \<^verbatim>\<open>{"detail": []}\<close> the source
  throws an \<open>Error\<close> whose message is the empty string. The exception is caught and
  the error cell set to that message, but the page displays neither a message nor the
  generic one, and the session is \<open>Idle\<close>, not \<open>Failed\<close>.
\<close>

theorem exception_claim_counterexample:
  "urls ex_list \<noteq> []
   \<and> try_block ex_engine (ErrorResponse (Inr ex_empty_array_body)) = Inl (ErrorInstance [])
   \<and> error (fst (analyzeCompetitors ex_engine (\<lambda>r. ErrorResponse (Inr ex_empty_array_body)) ex_list))
       = Some []
   \<and> render_error (fst (analyzeCompetitors ex_engine (\<lambda>r. ErrorResponse (Inr ex_empty_array_body)) ex_list))
       = None
   \<and> active_sessions (fst (analyzeCompetitors ex_engine (\<lambda>r. ErrorResponse (Inr ex_empty_array_body)) ex_list))
       = [Idle]"
proof -
  have a: "try_block ex_engine (ErrorResponse (Inr ex_empty_array_body)) = Inl (ErrorInstance [])"
    by (simp add: try_block_def ex_empty_array_body_def)
  then have b: "fst (analyzeCompetitors ex_engine (\<lambda>r. ErrorResponse (Inr ex_empty_array_body)) ex_list)
      = failed_with ex_list []"
    using ex_list_urls by (simp add: analyzeCompetitors_nonempty settle_thrown failed_with_def)
  have c: "render_error (failed_with ex_list []) = None"
    by (simp add: render_error_def failed_with_def)
  then have "failure_message (failed_with ex_list []) = None"
    by (simp add: failure_message_def)
  then have "active_sessions (failed_with ex_list []) = [Idle]"
    by (simp add: active_sessions_def) (simp add: failed_with_def)
  then show ?thesis using a b c ex_list_urls by (simp add: failed_with_def)
qed

lemma addUrl_session [simp]:
  "isAnalyzing (addUrl s) = isAnalyzing s" "result (addUrl s) = result s" "error (addUrl s) = error s"
  by (simp_all add: addUrl_def)

lemma removeUrl_session [simp]:
  "isAnalyzing (removeUrl i s) = isAnalyzing s" "result (removeUrl i s) = result s"
  "error (removeUrl i s) = error s"
  by (simp_all add: removeUrl_def)










section \<open>Charts and download: proofs\<close>

lemma split_on_not_empty: "split_on sep s \<noteq> []"
  by (induction s) (auto split: list.split)

lemma last_split_on_aux:
  "sep \<notin> set (last (split_on sep s))
   \<and> (if length (split_on sep s) = 1 then s = last (split_on sep s)
      else \<exists>dir. s = dir @ [sep] @ last (split_on sep s))"
proof (induction s)
  case Nil
  show ?case by simp
next
  case (Cons c cs)
  obtain seg segs where sp: "split_on sep cs = seg # segs"
    using split_on_not_empty [of sep cs] by (cases "split_on sep cs") auto
  show ?case
  proof (cases "c = sep")
    case True
    have l: "last (split_on sep (c # cs)) = last (split_on sep cs)"
      and n: "length (split_on sep (c # cs)) \<noteq> 1"
      using True sp by simp_all
    have "\<exists>dir. c # cs = dir @ [sep] @ last (split_on sep cs)"
    proof (cases "length (split_on sep cs) = 1")
      case True
      then have "cs = last (split_on sep cs)" using Cons.IH by simp
      then have "c # cs = [] @ [sep] @ last (split_on sep cs)" using \<open>c = sep\<close> by simp
      then show ?thesis by blast
    next
      case False
      then obtain dir where "cs = dir @ [sep] @ last (split_on sep cs)" using Cons.IH by auto
      then have "c # cs = (c # dir) @ [sep] @ last (split_on sep cs)" by simp
      then show ?thesis by blast
    qed
    then show ?thesis using Cons.IH l n by simp
  next
    case False
    show ?thesis
    proof (cases segs)
      case Nil
      then have l: "last (split_on sep (c # cs)) = c # seg" "last (split_on sep cs) = seg"
        and n: "length (split_on sep (c # cs)) = 1" "length (split_on sep cs) = 1"
        using False sp by simp_all
      have "cs = seg" using Cons.IH l(2) n(2) by simp
      moreover have "sep \<notin> set seg" using Cons.IH l(2) by simp
      ultimately show ?thesis using l(1) n(1) False by simp
    next
      case (Cons seg' segs')
      then have l: "last (split_on sep (c # cs)) = last (split_on sep cs)"
        and n: "length (split_on sep (c # cs)) \<noteq> 1" "length (split_on sep cs) \<noteq> 1"
        using False sp by simp_all
      obtain dir where "cs = dir @ [sep] @ last (split_on sep cs)" using Cons.IH n(2) by auto
      then have "c # cs = (c # dir) @ [sep] @ last (split_on sep cs)" by simp
      then have "\<exists>dir. c # cs = dir @ [sep] @ last (split_on sep cs)" by blast
      then show ?thesis using Cons.IH l n(1) by simp
    qed
  qed
qed

lemma last_split_on:
  "sep \<notin> set (last (split_on sep s))
   \<and> (s = last (split_on sep s) \<or> (\<exists>dir. s = dir @ [sep] @ last (split_on sep s)))"
  using last_split_on_aux [of sep s] by (auto split: if_splits)

lemma chart_src_last: "chart_src chart = API_BASE @ ascii ''/charts/'' @ last (split_on 0x2F chart)"
  by (simp add: chart_src_def pop_def split_on_not_empty)

text \<open>
  Claim C8. A success response becomes the result. For a result with at least one
  chart the page renders as many images as there are chart paths, in their order, and
  the source of each is \<open>API_BASE\<close>, \<open>/charts/\<close> and the base name of the path: the
  part of the path after its last slash, or the whole path when it has no slash.
\<close>

theorem chart_images_spec:
  "(urls s \<noteq> [] \<longrightarrow> result (fst (analyzeCompetitors e (\<lambda>q. OkResponse (Inr r)) s)) = Some r)
   \<and> (result s' = Some r \<and> charts r \<noteq> [] \<longrightarrow>
        length (render_charts s') = length (charts r)
        \<and> (\<forall>i < length (charts r). \<exists>basename.
              render_charts s' ! i = API_BASE @ ascii ''/charts/'' @ basename
              \<and> 0x2F \<notin> set basename
              \<and> (charts r ! i = basename \<or> (\<exists>dir. charts r ! i = dir @ [0x2F] @ basename))))"
proof (intro impI conjI allI)
  assume "urls s \<noteq> []"
  then show "result (fst (analyzeCompetitors e (\<lambda>q. OkResponse (Inr r)) s)) = Some r"
    by (simp add: analyzeCompetitors_nonempty analyze_settle_def try_block_def)
next
  assume a: "result s' = Some r \<and> charts r \<noteq> []"
  then show "length (render_charts s') = length (charts r)"
    by (simp add: render_charts_def chart_images_def)
  fix i
  assume i: "i < length (charts r)"
  let ?b = "last (split_on 0x2F (charts r ! i))"
  have "render_charts s' ! i = API_BASE @ ascii ''/charts/'' @ ?b"
    using a i by (simp add: render_charts_def chart_images_def chart_src_last)
  then show "\<exists>basename.
           render_charts s' ! i = API_BASE @ ascii ''/charts/'' @ basename
           \<and> 0x2F \<notin> set basename
           \<and> (charts r ! i = basename \<or> (\<exists>dir. charts r ! i = dir @ [0x2F] @ basename))"
    using last_split_on [of "0x2F" "charts r ! i"] by blast
qed

lemma ex_chart_src: "chart_src (ascii ''/c/1.png'') = ascii ''http://localhost:8000/charts/1.png''"
  by code_simp

text \<open>C8 on the response of the specification's example: the one chart
  \<^verbatim>\<open>/c/1.png\<close> is shown from \<^verbatim>\<open>http://localhost:8000/charts/1.png\<close>.\<close>

theorem chart_images_spec_witness:
  "urls ex_list \<noteq> []
   \<and> result (fst (analyzeCompetitors ex_engine (\<lambda>q. OkResponse (Inr ex_report)) ex_list)) = Some ex_report
   \<and> charts ex_report \<noteq> []
   \<and> length (render_charts (fst (analyzeCompetitors ex_engine (\<lambda>q. OkResponse (Inr ex_report)) ex_list))) = 1
   \<and> render_charts (fst (analyzeCompetitors ex_engine (\<lambda>q. OkResponse (Inr ex_report)) ex_list))
       = [ascii ''http://localhost:8000/charts/1.png'']"
proof -
  let ?s = "fst (analyzeCompetitors ex_engine (\<lambda>q. OkResponse (Inr ex_report)) ex_list)"
  note t = chart_images_spec [of ex_list ex_engine ex_report ?s]
  have ne: "charts ex_report \<noteq> []" by (simp add: ex_report_def)
  have r: "result ?s = Some ex_report" using t ex_list_urls by blast
  then have "length (render_charts ?s) = length (charts ex_report)" using t ne by blast
  then have "length (render_charts ?s) = 1" by (simp add: ex_report_def)
  moreover have "render_charts ?s = [ascii ''http://localhost:8000/charts/1.png'']"
    using r by (simp add: render_charts_def chart_images_def ex_report_def ex_chart_src)
  ultimately show ?thesis using ne r ex_list_urls by simp
qed

lemma unescaped_not_surrogate:
  "uri_unescaped c \<Longrightarrow> \<not> is_high_surrogate c \<and> \<not> is_low_surrogate c"
  unfolding uri_unescaped_def is_high_surrogate_def is_low_surrogate_def
  by (auto simp: word_le_nat_alt)

lemma high_not_low: "is_high_surrogate c \<Longrightarrow> \<not> is_low_surrogate c"
  unfolding is_high_surrogate_def is_low_surrogate_def
  by (auto simp: word_le_nat_alt)

lemma encode_defined: "(encodeURIComponent s \<noteq> None) = well_formed_utf16 s"
proof (induction s rule: well_formed_utf16.induct)
  case 1
  show ?case by simp
next
  case (2 c)
  show ?case using unescaped_not_surrogate [of c] high_not_low [of c] by auto
next
  case (3 c d ds)
  show ?case
  proof (cases "uri_unescaped c")
    case True
    then show ?thesis using 3 unescaped_not_surrogate [of c]
      by (simp del: encodeURIComponent.simps(2) add: encodeURIComponent.simps(2) [of c])
  next
    case False
    show ?thesis
    proof (cases "is_high_surrogate c")
      case True
      then show ?thesis using 3 False high_not_low [of c]
        by (simp del: encodeURIComponent.simps(2) add: encodeURIComponent.simps(2) [of c])
    next
      case h: False
      then show ?thesis using 3 False
        by (simp del: encodeURIComponent.simps(2) add: encodeURIComponent.simps(2) [of c])
    qed
  qed
qed

lemma unat_small: "n < 65536 \<Longrightarrow> unat (of_nat n :: 16 word) = n"
  by (simp add: unat_of_nat)

lemma digit_range: "48 \<le> n \<Longrightarrow> n \<le> 57 \<Longrightarrow> uri_unescaped (of_nat n)"
  using unat_small [of n] by (simp add: uri_unescaped_def word_le_nat_alt)

lemma upper_range: "65 \<le> n \<Longrightarrow> n \<le> 90 \<Longrightarrow> uri_unescaped (of_nat n)"
  using unat_small [of n] by (simp add: uri_unescaped_def word_le_nat_alt)

lemma hex_digit_unescaped: "d < 16 \<Longrightarrow> uri_unescaped (hex_digit d)"
proof (cases "d < 10")
  case True
  have "uri_unescaped (of_nat (0x30 + d))"
    by (rule digit_range) (use True in simp_all)
  moreover have "hex_digit d = of_nat (0x30 + d)"
    unfolding hex_digit_def using True by (rule if_P)
  ultimately show ?thesis by (simp only:)
next
  case False
  assume "d < 16"
  then have "uri_unescaped (of_nat (0x41 + (d - 10)))"
    by (intro upper_range) (use False in simp_all)
  moreover have "hex_digit d = of_nat (0x41 + (d - 10))"
    unfolding hex_digit_def using False by (rule if_not_P)
  ultimately show ?thesis by (simp only:)
qed

lemma percent_octet_safe: "b < 256 \<Longrightarrow> c \<in> set (percent_octet b) \<Longrightarrow> uri_unescaped c \<or> c = 0x25"
proof -
  assume b: "b < 256" and c: "c \<in> set (percent_octet b)"
  have "b div 16 < 16" "b mod 16 < 16" using b by simp_all
  then show ?thesis using c hex_digit_unescaped by (auto simp: percent_octet_def)
qed

lemma utf8_octets_small: "cp < 0x110000 \<Longrightarrow> b \<in> set (utf8_octets cp) \<Longrightarrow> b < 256"
  by (auto simp: utf8_octets_def split: if_splits)

lemma percent_encode_safe:
  "cp < 0x110000 \<Longrightarrow> c \<in> set (percent_encode cp) \<Longrightarrow> uri_unescaped c \<or> c = 0x25"
  by (auto simp: percent_encode_def dest: utf8_octets_small percent_octet_safe)

lemma unit_code_point: "unat (c :: 16 word) < 0x110000"
proof -
  have "unat c < 2 ^ LENGTH(16)" by (rule unsigned_less)
  then show ?thesis by simp
qed

lemma pair_code_point:
  "is_high_surrogate c \<Longrightarrow> is_low_surrogate d \<Longrightarrow>
     0x10000 + (unat c - 0xD800) * 0x400 + (unat d - 0xDC00) < (0x110000 :: nat)"
  unfolding is_high_surrogate_def is_low_surrogate_def
  by (auto simp: word_le_nat_alt)

lemma encode_safe:
  "encodeURIComponent s = Some p \<Longrightarrow> c \<in> set p \<Longrightarrow> uri_unescaped c \<or> c = 0x25"
proof (induction s arbitrary: p rule: well_formed_utf16.induct)
  case 1
  then show ?case by simp
next
  case (2 u)
  then show ?case
    using percent_encode_safe [OF unit_code_point [of u], of c]
    by (auto split: if_splits)
next
  case (3 u d ds)
  have eq: "encodeURIComponent (u # d # ds) =
     (if uri_unescaped u then map_option ((#) u) (encodeURIComponent (d # ds))
      else if is_low_surrogate u then None
      else if is_high_surrogate u then
        (if is_low_surrogate d
         then map_option ((@) (percent_encode (0x10000 + (unat u - 0xD800) * 0x400 + (unat d - 0xDC00))))
                (encodeURIComponent ds)
         else None)
      else map_option ((@) (percent_encode (unat u))) (encodeURIComponent (d # ds)))"
    by (simp del: encodeURIComponent.simps(2) add: encodeURIComponent.simps(2) [of u])
  show ?case
  proof (cases "uri_unescaped u")
    case True
    then obtain q where q: "encodeURIComponent (d # ds) = Some q" "p = u # q"
      using "3.prems"(1) unfolding eq by auto
    have "\<not> is_high_surrogate u" using True unescaped_not_surrogate by blast
    then show ?thesis using "3.IH"(2) [OF _ q(1)] q(2) "3.prems"(2) True by auto
  next
    case False
    show ?thesis
    proof (cases "is_high_surrogate u")
      case True
      then have nl: "\<not> is_low_surrogate u" by (rule high_not_low)
      then have ld: "is_low_surrogate d" using "3.prems"(1) False True unfolding eq by (auto split: if_splits)
      then obtain q where q: "encodeURIComponent ds = Some q"
        "p = percent_encode (0x10000 + (unat u - 0xD800) * 0x400 + (unat d - 0xDC00)) @ q"
        using "3.prems"(1) False True nl unfolding eq by auto
      show ?thesis
        using "3.IH"(1) [OF True q(1)] q(2) "3.prems"(2)
          percent_encode_safe [OF pair_code_point [OF True ld], of c]
        by auto
    next
      case h: False
      then have nl: "\<not> is_low_surrogate u" using "3.prems"(1) False unfolding eq by (auto split: if_splits)
      then obtain q where q: "encodeURIComponent (d # ds) = Some q" "p = percent_encode (unat u) @ q"
        using "3.prems"(1) False h unfolding eq by auto
      show ?thesis
        using "3.IH"(2) [OF h q(1)] q(2) "3.prems"(2)
          percent_encode_safe [OF unit_code_point [of u], of c]
        by auto
    qed
  qed
qed

text \<open>
  Claim C9, amended. With a result whose \<open>pdf_path\<close> is not empty and is well-formed
  UTF-16, \<open>downloadPDF\<close> opens exactly one window, with target \<open>_blank\<close>, at
  \<open>API_BASE\<close>, \<open>/api/download?path=\<close> and the encoded path, which consists of
  unreserved characters and percent signs only. Without a result, or with an empty
  \<open>pdf_path\<close>, it opens nothing.
\<close>

theorem downloadPDF_spec:
  "(\<forall>r. result s = Some r \<and> pdf_path r \<noteq> [] \<and> well_formed_utf16 (pdf_path r) \<longrightarrow>
      (\<exists>p. encodeURIComponent (pdf_path r) = Some p
           \<and> (\<forall>c \<in> set p. uri_unescaped c \<or> c = 0x25)
           \<and> downloadPDF s = Some [(API_BASE @ ascii ''/api/download?path='' @ p, ascii ''_blank'')]))
   \<and> (result s = None \<or> (\<exists>r. result s = Some r \<and> pdf_path r = []) \<longrightarrow> downloadPDF s = Some [])"
proof (intro conjI allI impI)
  fix r
  assume a: "result s = Some r \<and> pdf_path r \<noteq> [] \<and> well_formed_utf16 (pdf_path r)"
  then obtain p where p: "encodeURIComponent (pdf_path r) = Some p"
    using encode_defined [of "pdf_path r"] by auto
  have "\<forall>c \<in> set p. uri_unescaped c \<or> c = 0x25" using encode_safe [OF p] by blast
  moreover have "downloadPDF s = Some [(API_BASE @ ascii ''/api/download?path='' @ p, ascii ''_blank'')]"
    using a p by (simp add: downloadPDF_def)
  ultimately show "\<exists>p. encodeURIComponent (pdf_path r) = Some p
           \<and> (\<forall>c \<in> set p. uri_unescaped c \<or> c = 0x25)
           \<and> downloadPDF s = Some [(API_BASE @ ascii ''/api/download?path='' @ p, ascii ''_blank'')]"
    using p by blast
next
  assume "result s = None \<or> (\<exists>r. result s = Some r \<and> pdf_path r = [])"
  then show "downloadPDF s = Some []" by (auto simp: downloadPDF_def)
qed

lemma ex_report_encoded: "encodeURIComponent (ascii ''/r/a.pdf'') = Some (ascii ''%2Fr%2Fa.pdf'')"
  by code_simp

lemma ex_report_well_formed: "well_formed_utf16 (ascii ''/r/a.pdf'')"
  by code_simp

text \<open>C9 on the path \<^verbatim>\<open>/r/a.pdf\<close>, on the initial state and on an empty
  path.\<close>

theorem downloadPDF_spec_witness:
  "downloadPDF (initial\<lparr>result := Some ex_report\<rparr>)
     = Some [(ascii ''http://localhost:8000/api/download?path=%2Fr%2Fa.pdf'', ascii ''_blank'')]
   \<and> downloadPDF initial = Some []
   \<and> downloadPDF (initial\<lparr>result := Some (ex_report\<lparr>pdf_path := []\<rparr>)\<rparr>) = Some []"
proof -
  have "result (initial\<lparr>result := Some ex_report\<rparr>) = Some ex_report
      \<and> pdf_path ex_report \<noteq> [] \<and> well_formed_utf16 (pdf_path ex_report)"
    using ex_report_well_formed by (simp add: ex_report_def ascii_def)
  then obtain p where "encodeURIComponent (pdf_path ex_report) = Some p"
    "downloadPDF (initial\<lparr>result := Some ex_report\<rparr>)
       = Some [(API_BASE @ ascii ''/api/download?path='' @ p, ascii ''_blank'')]"
    using downloadPDF_spec [of "initial\<lparr>result := Some ex_report\<rparr>"] by blast
  then have "downloadPDF (initial\<lparr>result := Some ex_report\<rparr>)
     = Some [(ascii ''http://localhost:8000/api/download?path=%2Fr%2Fa.pdf'', ascii ''_blank'')]"
    using ex_report_encoded by (simp add: ex_report_def API_BASE_def ascii_def)
  moreover have "downloadPDF initial = Some []"
    using downloadPDF_spec [of initial] by (simp add: initial_def)
  moreover have "downloadPDF (initial\<lparr>result := Some (ex_report\<lparr>pdf_path := []\<rparr>)\<rparr>) = Some []"
    using downloadPDF_spec [of "initial\<lparr>result := Some (ex_report\<lparr>pdf_path := []\<rparr>)\<rparr>"] by simp
  ultimately show ?thesis by simp
qed

lemma ex_broken_path_throws: "encodeURIComponent ex_broken_path = None"
  by code_simp

text \<open>
  Claim C9 as stated fails. The result is present and so is its \<open>pdf_path\<close>, but the
  path holds half of a surrogate pair: \<open>encodeURIComponent\<close> throws, the handler ends
  there, and no window is opened.
\<close>

theorem download_claim_counterexample:
  "result (initial\<lparr>result := Some (ex_report\<lparr>pdf_path := ex_broken_path\<rparr>)\<rparr>)
     = Some (ex_report\<lparr>pdf_path := ex_broken_path\<rparr>)
   \<and> pdf_path (ex_report\<lparr>pdf_path := ex_broken_path\<rparr>) \<noteq> []
   \<and> downloadPDF (initial\<lparr>result := Some (ex_report\<lparr>pdf_path := ex_broken_path\<rparr>)\<rparr>) = None"
  using ex_broken_path_throws by (simp add: downloadPDF_def ex_broken_path_def ascii_def)

end
